theory Spec2Isabelle
  imports Main
begin

section \<open>Sequence diff engine (function diff of the extension-host notebook model)\<close>

text \<open>
  A splice \<open>{start, deleteCount, toInsert}\<close> (ISplice of vs/base/common/sequence, made
  mutable in its delete count by IMutableSplice). Indices are array indices, so naturals.
\<close>

record 'a ISplice =
  start :: nat
  deleteCount :: nat
  toInsert :: "'a list"

text \<open>
  The inner function pushSplice of diff. The array \<open>result\<close> it closes over is passed
  in and returned. \<open>latest\<close> is \<open>result[result.length - 1]\<close>, which is undefined (falsy)
  exactly when \<open>result\<close> is empty; a splice object is always truthy.
\<close>

definition pushSplice :: "nat \<Rightarrow> nat \<Rightarrow> 'a list \<Rightarrow> 'a ISplice list \<Rightarrow> 'a ISplice list" where
  "pushSplice st dc ins result =
     (if dc = 0 \<and> length ins = 0 then result
      else if result \<noteq> [] \<and> start (last result) + deleteCount (last result) = st
      then butlast result @
             [(last result)\<lparr>deleteCount := deleteCount (last result) + dc,
                            toInsert := toInsert (last result) @ ins\<rparr>]
      else result @ [\<lparr>start = st, deleteCount = dc, toInsert = ins\<rparr>])"

text \<open>
  The \<open>while (true)\<close> loop of diff, with its three variables \<open>beforeIdx\<close>, \<open>afterIdx\<close> and
  \<open>result\<close> as arguments. Elements are compared with \<open>===\<close>; the callers instantiate T
  with objects (cells, outputs), for which that is identity, modelled by HOL equality on
  the element type. The source tests \<open>beforeIdx === before.length\<close> and
  \<open>afterIdx === after.length\<close>; both indices start at 0 and grow by one only while they
  are below the length, so on every state the loop reaches the tests coincide with the
  comparisons written here, which also make the recursion well-founded. The arrays
  \<open>before\<close> and \<open>after\<close> are \<open>beforeSeq\<close> and \<open>afterSeq\<close>.
\<close>

function diff_loop ::
  "'a list \<Rightarrow> 'a list \<Rightarrow> ('a \<Rightarrow> bool) \<Rightarrow> nat \<Rightarrow> nat \<Rightarrow> 'a ISplice list \<Rightarrow> 'a ISplice list" where
  "diff_loop beforeSeq afterSeq contains beforeIdx afterIdx result =
     (if length beforeSeq \<le> beforeIdx
      then pushSplice beforeIdx 0 (drop afterIdx afterSeq) result
      else if length afterSeq \<le> afterIdx
      then pushSplice beforeIdx (length beforeSeq - beforeIdx) [] result
      else if beforeSeq ! beforeIdx = afterSeq ! afterIdx
      then diff_loop beforeSeq afterSeq contains (beforeIdx + 1) (afterIdx + 1) result
      else if contains (afterSeq ! afterIdx)
      then diff_loop beforeSeq afterSeq contains (beforeIdx + 1) afterIdx
             (pushSplice beforeIdx 1 [] result)
      else diff_loop beforeSeq afterSeq contains beforeIdx (afterIdx + 1)
             (pushSplice beforeIdx 0 [afterSeq ! afterIdx] result))"
  by pat_completeness auto
termination
  by (relation "measure (\<lambda>(beforeSeq, afterSeq, contains, beforeIdx, afterIdx, result).
        (length beforeSeq - beforeIdx) + (length afterSeq - afterIdx))") auto

declare diff_loop.simps [simp del]

definition diff :: "'a list \<Rightarrow> 'a list \<Rightarrow> ('a \<Rightarrow> bool) \<Rightarrow> 'a ISplice list" where
  "diff beforeSeq afterSeq contains = diff_loop beforeSeq afterSeq contains 0 0 []"


subsection \<open>Applying splices\<close>

text \<open>
  \<open>Array.prototype.splice(start, deleteCount, ...toInsert)\<close> for non-negative integer
  arguments: a start beyond the end is clamped to the length and the delete count to what
  remains, which is what \<open>take\<close> and \<open>drop\<close> do.
\<close>

definition splice_list :: "nat \<Rightarrow> nat \<Rightarrow> 'a list \<Rightarrow> 'a list \<Rightarrow> 'a list" where
  "splice_list st dc ins xs = take st xs @ ins @ drop (st + dc) xs"

definition apply_splice :: "'a ISplice \<Rightarrow> 'a list \<Rightarrow> 'a list" where
  "apply_splice sp xs = splice_list (start sp) (deleteCount sp) (toInsert sp) xs"

text \<open>Applying a splice list first to last, each splice to the array the previous one left.\<close>

definition apply_in_order :: "'a ISplice list \<Rightarrow> 'a list \<Rightarrow> 'a list" where
  "apply_in_order sps xs = fold apply_splice sps xs"

text \<open>
  Applying a splice list last to first, as the output renderer does with the splices it
  receives (\<open>splices.reverse()\<close> followed by \<open>forEach\<close> in the code cell's
  onDidChangeOutputs listener).
\<close>

definition apply_reversed :: "'a ISplice list \<Rightarrow> 'a list \<Rightarrow> 'a list" where
  "apply_reversed sps xs = fold apply_splice (rev sps) xs"

text \<open>A contains predicate consistent with the membership of a sequence.\<close>

definition contains_of :: "'a list \<Rightarrow> 'a \<Rightarrow> bool" where
  "contains_of xs x = (x \<in> set xs)"

text \<open>No two neighbouring splices touch: the end of one is never the start of the next.\<close>

definition no_adjacent :: "'a ISplice list \<Rightarrow> bool" where
  "no_adjacent r =
     list_all (\<lambda>i. start (r ! i) + deleteCount (r ! i) \<noteq> start (r ! Suc i))
       [0 ..< length r - 1]"

section \<open>Data model of the extension-host notebook\<close>

text \<open>Exceptions of the runtime: reading a property of \<open>undefined\<close>.\<close>

datatype exn = TypeError

text \<open>
  A parsed glob pattern (glob.ParsedPattern) is a function from a string to a boolean.
\<close>

type_synonym ParsedPattern = "string \<Rightarrow> bool"

record ExtHostOutputDisplayOrder =
  defaultOrder :: "ParsedPattern list"
  userOrder :: "ParsedPattern list option"

datatype output_type = Stream | Error | DisplayData | ExecuteResult

text \<open>
  A cell output (vscode.CellOutput). \<open>data\<close> holds the entries of the \<open>data\<close> object of a
  display output in the order \<open>Object.keys\<close> enumerates them; \<open>payload\<close> stands for the
  fields of stream and error outputs, which the code passes on untouched.
\<close>

record CellOutput =
  output_type :: output_type
  data :: "(string \<times> string) list"
  payload :: string

datatype cell_type = Markdown | Code

record ExtHostCell =
  handle :: nat
  source :: "string list"
  language :: string
  cell_type :: cell_type
  outputs :: "CellOutput list"

text \<open>
  ExtHostNotebookOutputRenderer: its handle, the \<open>subTypes\<close> of its filter and the render
  function of the extension's renderer, as a function of the cell, the output and the
  mimetype.
\<close>

record ExtHostNotebookOutputRenderer =
  rendererHandle :: nat
  subTypes :: "string list option"
  render :: "ExtHostCell \<Rightarrow> CellOutput \<Rightarrow> string \<Rightarrow> string"

text \<open>
  ExtHostNotebookOutputRenderingHandler, implemented by the controller: the display order
  (undefined until \<open>$acceptDisplayOrder\<close> runs) and the registered renderers, the values of
  the map \<open>_notebookOutputRenderers\<close> in insertion order.
\<close>

record ExtHostNotebookOutputRenderingHandler =
  outputDisplayOrder :: "ExtHostOutputDisplayOrder option"
  notebookOutputRenderers :: "ExtHostNotebookOutputRenderer list"

text \<open>
  IOrderedMimeType; its field \<open>output\<close>, the rendered content of a resolved candidate, is
  \<open>renderedOutput\<close> here.
\<close>

record IOrderedMimeType =
  mimeType :: string
  isResolved :: bool
  rendererId :: "int option"
  renderedOutput :: "string option"

record ITransformedDisplayOutputDto =
  dto_output_type :: output_type
  dto_data :: "(string \<times> string) list"
  orderedMimeTypes :: "IOrderedMimeType list"
  pickedMimeTypeIndex :: nat

datatype IOutputDto = TransformedOutput ITransformedDisplayOutputDto | RawOutput CellOutput

record ICellDto =
  dto_handle :: nat
  dto_source :: "string list"
  dto_language :: string
  dto_cell_type :: cell_type
  dto_outputs :: "IOutputDto list"
  isDirty :: bool

text \<open>Calls on the remote peer (MainThreadNotebookShape), recorded in the order made.\<close>

datatype ProxyCall =
    SpliceNotebookCells string string "(nat \<times> nat \<times> ICellDto list) list" "int list"
  | UpdateNotebookLanguages string string "string list"

text \<open>
  Modelled from the spec: DisposableStore (vs/base/common/lifecycle) is not among the
  sources. It is the disposable bag that holds a cell's output-change listeners; a listener
  is identified by the handle of the cell whose onDidChangeOutputs event it is subscribed
  to. Clearing or disposing a store disposes every listener in it.
\<close>

type_synonym DisposableStore = "nat list"

text \<open>A call of a renderer's render function: the renderer's handle and the mimetype.\<close>

type_synonym RenderCall = "nat \<times> string"

text \<open>
  ExtHostNotebookDocument. Besides the fields of the class the record carries three
  traces of what the document did to the outside: the calls made on the proxy, the
  listeners disposed, and the render functions called.
\<close>

record ExtHostNotebookDocument =
  cells :: "ExtHostCell list"
  cellDisposableMapping :: "nat \<rightharpoonup> DisposableStore"
  languages :: "string list"
  parsedDisplayOrder :: "ParsedPattern list"
  viewType :: string
  uri :: string
  renderingHandler :: ExtHostNotebookOutputRenderingHandler
  proxyCalls :: "ProxyCall list"
  disposed :: "nat list"
  renderLog :: "RenderCall list"

section \<open>Mimetype ranking\<close>

text \<open>
  One of the three loops of getMimeTypeOrder: \<open>Inl order\<close> when the loop returns from the
  function at a matching pattern, \<open>Inr order\<close> when it runs to its end.
\<close>

fun scanOrder :: "ParsedPattern list \<Rightarrow> string \<Rightarrow> nat \<Rightarrow> nat + nat" where
  "scanOrder [] m order = Inr order"
| "scanOrder (p # ps) m order = (if p m then Inl order else scanOrder ps m (order + 1))"

definition getMimeTypeOrder :: "ExtHostNotebookDocument \<Rightarrow> string \<Rightarrow> nat" where
  "getMimeTypeOrder doc m =
     (case outputDisplayOrder (renderingHandler doc) of
        None \<Rightarrow> 0
      | Some coreDisplayOrder \<Rightarrow>
          (case (case userOrder coreDisplayOrder of
                   None \<Rightarrow> Inr 0
                 | Some userDisplayOrder \<Rightarrow> scanOrder userDisplayOrder m 0) of
             Inl order \<Rightarrow> order
           | Inr order1 \<Rightarrow>
               (case scanOrder (parsedDisplayOrder doc) m order1 of
                  Inl order \<Rightarrow> order
                | Inr order2 \<Rightarrow>
                    (case scanOrder (defaultOrder coreDisplayOrder) m order2 of
                       Inl order \<Rightarrow> order
                     | Inr order3 \<Rightarrow> order3))))"

text \<open>
  The rank as the specification words it: the index of the first matching pattern of a
  list, if any, and the three lists scanned in turn with the lengths of the lists already
  scanned added.
\<close>

definition firstMatch :: "ParsedPattern list \<Rightarrow> string \<Rightarrow> nat option" where
  "firstMatch ps m =
     (if list_ex (\<lambda>p. p m) ps then Some (length (takeWhile (\<lambda>p. \<not> p m) ps)) else None)"

definition specRank ::
  "ParsedPattern list \<Rightarrow> ParsedPattern list \<Rightarrow> ParsedPattern list \<Rightarrow> string \<Rightarrow> nat" where
  "specRank userO documentO defaultO m =
     (case firstMatch userO m of
        Some i \<Rightarrow> i
      | None \<Rightarrow>
          (case firstMatch documentO m of
             Some i \<Rightarrow> length userO + i
           | None \<Rightarrow>
               (case firstMatch defaultO m of
                  Some i \<Rightarrow> length userO + length documentO + i
                | None \<Rightarrow> length userO + length documentO + length defaultO)))"

text \<open>
  Modelled from the spec: glob.parse (vs/base/common/glob) is not among the sources. The
  specification says that an entry is a glob-style pattern matched against a mimetype
  string; the model covers literal characters and \<open>*\<close>, which stands for any run of
  characters other than the separator \<open>/\<close>.
\<close>

fun glob_match :: "string \<Rightarrow> string \<Rightarrow> bool" where
  "glob_match [] s = (s = [])"
| "glob_match (p # ps) [] = (p = CHR ''*'' \<and> glob_match ps [])"
| "glob_match (p # ps) (c # cs) =
     (if p = CHR ''*''
      then glob_match ps (c # cs) \<or> (c \<noteq> CHR ''/'' \<and> glob_match (p # ps) cs)
      else p = c \<and> glob_match ps cs)"

definition glob_parse :: "string \<Rightarrow> ParsedPattern" where
  "glob_parse pattern = glob_match pattern"


section \<open>Mimetype resolution\<close>

definition matches :: "ExtHostNotebookOutputRenderer \<Rightarrow> string \<Rightarrow> bool" where
  "matches r m = (case subTypes r of None \<Rightarrow> False | Some ts \<Rightarrow> m \<in> set ts)"

definition findBestMatchedRenderer ::
  "ExtHostNotebookOutputRenderingHandler \<Rightarrow> string \<Rightarrow> ExtHostNotebookOutputRenderer list" where
  "findBestMatchedRenderer h m = filter (\<lambda>r. matches r m) (notebookOutputRenderers h)"

text \<open>
  The body of \<open>sorted.forEach\<close> in transformMimeTypes, split in two: the candidates it
  pushes for one mimetype and the render calls it makes for it. \<open>supportedByCore\<close> is
  mimeTypeSupportedByCore of notebookCommon, which is not among the sources and is a
  parameter here.
\<close>

definition pushedCandidates ::
  "(string \<Rightarrow> bool) \<Rightarrow> ExtHostNotebookDocument \<Rightarrow> ExtHostCell \<Rightarrow> CellOutput \<Rightarrow> string \<Rightarrow>
     IOrderedMimeType list" where
  "pushedCandidates supportedByCore doc cell out m =
     (case findBestMatchedRenderer (renderingHandler doc) m of
        [] \<Rightarrow> [\<lparr>mimeType = m, isResolved = False, rendererId = None, renderedOutput = None\<rparr>]
      | h0 # others \<Rightarrow>
          [\<lparr>mimeType = m, isResolved = True, rendererId = Some (int (rendererHandle h0)),
            renderedOutput = Some (render h0 cell out m)\<rparr>]
          @ map (\<lambda>hi. \<lparr>mimeType = m, isResolved = False,
                        rendererId = Some (int (rendererHandle hi)), renderedOutput = None\<rparr>) others
          @ (if supportedByCore m
             then [\<lparr>mimeType = m, isResolved = False, rendererId = Some (- 1),
                    renderedOutput = None\<rparr>]
             else []))"

definition renderCalls :: "ExtHostNotebookDocument \<Rightarrow> string \<Rightarrow> RenderCall list" where
  "renderCalls doc m =
     (case findBestMatchedRenderer (renderingHandler doc) m of
        [] \<Rightarrow> []
      | h0 # others \<Rightarrow> [(rendererHandle h0, m)])"

definition transformStep ::
  "(string \<Rightarrow> bool) \<Rightarrow> ExtHostNotebookDocument \<Rightarrow> ExtHostCell \<Rightarrow> CellOutput \<Rightarrow> string \<Rightarrow>
     IOrderedMimeType list \<times> RenderCall list \<Rightarrow> IOrderedMimeType list \<times> RenderCall list" where
  "transformStep supportedByCore doc cell out m st =
     (fst st @ pushedCandidates supportedByCore doc cell out m, snd st @ renderCalls doc m)"

text \<open>
  transformMimeTypes returns the transformed output together with the render calls it
  made, in order. \<open>Array.prototype.sort\<close> is stable, and so is \<open>sort_key\<close>.
\<close>

definition transformMimeTypes ::
  "(string \<Rightarrow> bool) \<Rightarrow> ExtHostNotebookDocument \<Rightarrow> ExtHostCell \<Rightarrow> CellOutput \<Rightarrow>
     ITransformedDisplayOutputDto \<times> RenderCall list" where
  "transformMimeTypes supportedByCore doc cell out =
     (let mimeTypes = map fst (data out);
          sorted = sort_key (getMimeTypeOrder doc) mimeTypes;
          st = fold (transformStep supportedByCore doc cell out) sorted ([], [])
      in (\<lparr>dto_output_type = output_type out, dto_data = data out,
           orderedMimeTypes = fst st, pickedMimeTypeIndex = 0\<rparr>, snd st))"

text \<open>
  The property "only the picked candidate is rendered" of a result of transformMimeTypes:
  every render call made is the one of the candidate at pickedMimeTypeIndex.
\<close>

definition only_picked_rendered :: "ITransformedDisplayOutputDto \<times> RenderCall list \<Rightarrow> bool" where
  "only_picked_rendered res =
     list_all (\<lambda>call. pickedMimeTypeIndex (fst res) < length (orderedMimeTypes (fst res))
                 \<and> rendererId (orderedMimeTypes (fst res) ! pickedMimeTypeIndex (fst res))
                     = Some (int (fst call))
                 \<and> mimeType (orderedMimeTypes (fst res) ! pickedMimeTypeIndex (fst res))
                     = snd call) (snd res)"

section \<open>Document operations\<close>

text \<open>
  A statement sequence that reads and writes a state and may throw: the state at the
  throw is kept. \<open>mapRun\<close> is \<open>Array.prototype.map\<close> and \<open>forEachRun\<close> is
  \<open>Array.prototype.forEach\<close> with such a callback.
\<close>

fun mapRun :: "('a \<Rightarrow> 's \<Rightarrow> (exn + 'b) \<times> 's) \<Rightarrow> 'a list \<Rightarrow> 's \<Rightarrow> (exn + 'b list) \<times> 's" where
  "mapRun f [] s = (Inr [], s)"
| "mapRun f (x # xs) s =
     (case f x s of
        (Inl e, s1) \<Rightarrow> (Inl e, s1)
      | (Inr y, s1) \<Rightarrow>
          (case mapRun f xs s1 of
             (Inl e, s2) \<Rightarrow> (Inl e, s2)
           | (Inr ys, s2) \<Rightarrow> (Inr (y # ys), s2)))"

fun forEachRun :: "('a \<Rightarrow> 's \<Rightarrow> (exn + unit) \<times> 's) \<Rightarrow> 'a list \<Rightarrow> 's \<Rightarrow> (exn + unit) \<times> 's" where
  "forEachRun f [] s = (Inr (), s)"
| "forEachRun f (x # xs) s =
     (case f x s of
        (Inl e, s1) \<Rightarrow> (Inl e, s1)
      | (Inr u, s1) \<Rightarrow> forEachRun f xs s1)"

text \<open>\<open>Set.prototype.add\<close> on the set \<open>renderers\<close>, kept in insertion order.\<close>

definition addRenderer :: "int \<Rightarrow> int list \<Rightarrow> int list" where
  "addRenderer h rs = (if h \<in> set rs then rs else rs @ [h])"

text \<open>
  The callback of \<open>outputs.map\<close> in eventuallyUpdateCells; the state is the document
  and the local set \<open>renderers\<close>. Reading \<open>isResolved\<close> of the picked candidate throws
  when the candidate list is empty. A resolved candidate always carries a renderer id.
\<close>

definition transformOutput ::
  "(string \<Rightarrow> bool) \<Rightarrow> ExtHostCell \<Rightarrow> CellOutput \<Rightarrow> ExtHostNotebookDocument \<times> int list \<Rightarrow>
     (exn + IOutputDto) \<times> (ExtHostNotebookDocument \<times> int list)" where
  "transformOutput supportedByCore cell out st =
     (if output_type out = DisplayData \<or> output_type out = ExecuteResult
      then
        (let res = transformMimeTypes supportedByCore (fst st) cell out;
             ret = fst res;
             doc1 = (fst st)\<lparr>renderLog := renderLog (fst st) @ snd res\<rparr>
         in if pickedMimeTypeIndex ret < length (orderedMimeTypes ret)
            then
              (let picked = orderedMimeTypes ret ! pickedMimeTypeIndex ret
               in (Inr (TransformedOutput ret),
                   (doc1, if isResolved picked
                          then (case rendererId picked of
                                  Some h \<Rightarrow> addRenderer h (snd st)
                                | None \<Rightarrow> snd st)
                          else snd st)))
            else (Inl TypeError, (doc1, snd st)))
      else (Inr (RawOutput out), st))"

definition cellToDto ::
  "(string \<Rightarrow> bool) \<Rightarrow> ExtHostCell \<Rightarrow> ExtHostNotebookDocument \<times> int list \<Rightarrow>
     (exn + ICellDto) \<times> (ExtHostNotebookDocument \<times> int list)" where
  "cellToDto supportedByCore cell st =
     (case (if outputs cell \<noteq> []
            then mapRun (transformOutput supportedByCore cell) (outputs cell) st
            else (Inr (map RawOutput (outputs cell)), st)) of
        (Inl e, st1) \<Rightarrow> (Inl e, st1)
      | (Inr outs, st1) \<Rightarrow>
          (Inr \<lparr>dto_handle = handle cell, dto_source = source cell,
                dto_language = language cell, dto_cell_type = cell_type cell,
                dto_outputs = outs, isDirty = False\<rparr>, st1))"

definition spliceToDto ::
  "(string \<Rightarrow> bool) \<Rightarrow> ExtHostCell ISplice \<Rightarrow> ExtHostNotebookDocument \<times> int list \<Rightarrow>
     (exn + nat \<times> nat \<times> ICellDto list) \<times> (ExtHostNotebookDocument \<times> int list)" where
  "spliceToDto supportedByCore d st =
     (case mapRun (cellToDto supportedByCore) (toInsert d) st of
        (Inl e, st1) \<Rightarrow> (Inl e, st1)
      | (Inr cellDtos, st1) \<Rightarrow> (Inr (start d, deleteCount d, cellDtos), st1))"

definition eventuallyUpdateCells ::
  "(string \<Rightarrow> bool) \<Rightarrow> ExtHostCell ISplice list \<Rightarrow> ExtHostNotebookDocument \<Rightarrow>
     (exn + unit) \<times> ExtHostNotebookDocument" where
  "eventuallyUpdateCells supportedByCore diffs doc =
     (case mapRun (spliceToDto supportedByCore) diffs (doc, []) of
        (Inl e, st1) \<Rightarrow> (Inl e, fst st1)
      | (Inr diffDtos, st1) \<Rightarrow>
          (Inr (), (fst st1)\<lparr>proxyCalls := proxyCalls (fst st1) @
             [SpliceNotebookCells (viewType (fst st1)) (uri (fst st1)) diffDtos (snd st1)]\<rparr>))"

text \<open>
  The two loops the cells setter runs for one splice. The \<open>for\<close> loop reads
  \<open>this._cells[i].handle\<close>, which throws if \<open>i\<close> is not an index of the old cell list;
  \<open>get(...)?.clear()\<close> disposes the listeners of the store, if there is one, and \<open>delete\<close>
  removes the entry. The \<open>forEach\<close> over the inserted cells registers a new store that
  holds the listener on the cell's onDidChangeOutputs event.
\<close>

definition unsubscribeAt :: "nat \<Rightarrow> ExtHostNotebookDocument \<Rightarrow> (exn + unit) \<times> ExtHostNotebookDocument" where
  "unsubscribeAt i doc =
     (if i < length (cells doc)
      then
        (let h = handle (cells doc ! i)
         in (Inr (), doc\<lparr>disposed := disposed doc @
                             (case cellDisposableMapping doc h of
                                None \<Rightarrow> []
                              | Some store \<Rightarrow> store),
                         cellDisposableMapping := (cellDisposableMapping doc)(h := None)\<rparr>))
      else (Inl TypeError, doc))"

definition subscribeCell :: "ExtHostCell \<Rightarrow> ExtHostNotebookDocument \<Rightarrow> (exn + unit) \<times> ExtHostNotebookDocument" where
  "subscribeCell cell doc =
     (Inr (), doc\<lparr>cellDisposableMapping := (cellDisposableMapping doc)(handle cell \<mapsto> [handle cell])\<rparr>)"

definition applyDiffToSubscriptions ::
  "ExtHostCell ISplice \<Rightarrow> ExtHostNotebookDocument \<Rightarrow> (exn + unit) \<times> ExtHostNotebookDocument" where
  "applyDiffToSubscriptions d doc =
     (case forEachRun unsubscribeAt [start d ..< start d + deleteCount d] doc of
        (Inl e, doc1) \<Rightarrow> (Inl e, doc1)
      | (Inr u, doc1) \<Rightarrow> forEachRun subscribeCell (toInsert d) doc1)"

text \<open>
  The setter of \<open>cells\<close>. The contains predicate handed to diff asks whether the cell's
  handle has an entry in the subscription map.
\<close>

definition set_cells ::
  "(string \<Rightarrow> bool) \<Rightarrow> ExtHostCell list \<Rightarrow> ExtHostNotebookDocument \<Rightarrow>
     (exn + unit) \<times> ExtHostNotebookDocument" where
  "set_cells supportedByCore newCells doc =
     (let diffs = diff (cells doc) newCells (\<lambda>a. cellDisposableMapping doc (handle a) \<noteq> None)
      in case forEachRun applyDiffToSubscriptions diffs doc of
           (Inl e, doc1) \<Rightarrow> (Inl e, doc1)
         | (Inr u, doc1) \<Rightarrow> eventuallyUpdateCells supportedByCore diffs (doc1\<lparr>cells := newCells\<rparr>))"

text \<open>
  The getter and the setter of \<open>languages\<close>. The getter is \<open>return this._languages = []\<close>:
  it assigns the empty list to the field and returns it.
\<close>

definition get_languages :: "ExtHostNotebookDocument \<Rightarrow> string list \<times> ExtHostNotebookDocument" where
  "get_languages doc = ([], doc\<lparr>languages := []\<rparr>)"

definition set_languages :: "string list \<Rightarrow> ExtHostNotebookDocument \<Rightarrow> ExtHostNotebookDocument" where
  "set_languages newLanguages doc =
     (let doc1 = doc\<lparr>languages := newLanguages\<rparr>
      in doc1\<lparr>proxyCalls := proxyCalls doc1 @
                 [UpdateNotebookLanguages (viewType doc1) (uri doc1) (languages doc1)]\<rparr>)"

text \<open>
  deleteCell. The index is a JavaScript number, an integer here. The only guard is
  \<open>index >= this.cells.length\<close>; below it \<open>this.cells[index]\<close> is read, which is
  \<open>undefined\<close> for a negative index, and reading \<open>cell.handle\<close> then throws before
  anything is changed. \<open>dispose\<close> disposes the listeners of the store;
  \<open>this.cells.splice(index, 1)\<close> removes the cell from the array in place.
\<close>

definition deleteCell :: "int \<Rightarrow> ExtHostNotebookDocument \<Rightarrow> (exn + bool) \<times> ExtHostNotebookDocument" where
  "deleteCell index doc =
     (if int (length (cells doc)) \<le> index then (Inr False, doc)
      else if index < 0 then (Inl TypeError, doc)
      else
        (let cell = cells doc ! nat index;
             doc1 = doc\<lparr>disposed := disposed doc @
                            (case cellDisposableMapping doc (handle cell) of
                               None \<Rightarrow> []
                             | Some store \<Rightarrow> store),
                        cellDisposableMapping := (cellDisposableMapping doc)(handle cell := None)\<rparr>
         in (Inr True, doc1\<lparr>cells := splice_list (nat index) 1 [] (cells doc1)\<rparr>)))"

section \<open>Example values\<close>

text \<open>Concrete cells, renderers, outputs and documents at which the theorems are instantiated.\<close>

definition ex_cell :: "nat \<Rightarrow> ExtHostCell" where
  "ex_cell h = \<lparr>handle = h, source = [''1 + 1''], language = ''python'', cell_type = Code,
                outputs = []\<rparr>"

definition ex_render :: "ExtHostCell \<Rightarrow> CellOutput \<Rightarrow> string \<Rightarrow> string" where
  "ex_render cell out m = ''<div/>''"

definition ex_renderer :: "nat \<Rightarrow> string \<Rightarrow> ExtHostNotebookOutputRenderer" where
  "ex_renderer h m = \<lparr>rendererHandle = h, subTypes = Some [m], render = ex_render\<rparr>"

definition ex_output :: CellOutput where
  "ex_output = \<lparr>output_type = DisplayData,
                data = [(''text/plain'', ''x''), (''image/png'', ''y'')], payload = []\<rparr>"

definition ex_supportedByCore :: "string \<Rightarrow> bool" where
  "ex_supportedByCore m = (m = ''text/plain'')"

definition ex_document ::
  "ExtHostNotebookOutputRenderingHandler \<Rightarrow> ParsedPattern list \<Rightarrow> ExtHostNotebookDocument" where
  "ex_document h documentOrder =
     \<lparr>cells = [ex_cell 1, ex_cell 2, ex_cell 3],
      cellDisposableMapping = [1 \<mapsto> [1], 2 \<mapsto> [2], 3 \<mapsto> [3]],
      languages = [''python''], parsedDisplayOrder = documentOrder,
      viewType = ''notebook'', uri = ''file:///a.ipynb'', renderingHandler = h,
      proxyCalls = [], disposed = [], renderLog = []\<rparr>"

text \<open>A handler with no display order and a renderer for each of text/plain and image/png.\<close>

definition ex_handler_two :: ExtHostNotebookOutputRenderingHandler where
  "ex_handler_two =
     \<lparr>outputDisplayOrder = None,
      notebookOutputRenderers = [ex_renderer 0 ''text/plain'', ex_renderer 1 ''image/png'']\<rparr>"

text \<open>
  A handler with user order [image/*], default order [text/plain, text/html] and one
  renderer, for image/png.
\<close>

definition ex_handler_png :: ExtHostNotebookOutputRenderingHandler where
  "ex_handler_png =
     \<lparr>outputDisplayOrder =
        Some \<lparr>defaultOrder = [glob_parse ''text/plain'', glob_parse ''text/html''],
              userOrder = Some [glob_parse ''image/*'']\<rparr>,
      notebookOutputRenderers = [ex_renderer 7 ''image/png'']\<rparr>"


section \<open>Properties of the diff engine\<close>

subsection \<open>Identical sequences\<close>

lemma diff_loop_same: "diff_loop A A c i i r = r"
proof (induction "length A - i" arbitrary: i)
  case 0
  then show ?case by (subst diff_loop.simps) (simp add: pushSplice_def)
next
  case (Suc n)
  then have "i < length A" "n = length A - Suc i" by simp_all
  then show ?case using Suc.hyps(1)[of "Suc i"]
    by (subst diff_loop.simps) simp
qed

text \<open>
  Claim C8: for every sequence A and every contains predicate, diff(A, A, contains) is
  the empty splice list; this includes A empty.
\<close>

theorem diff_same: "diff A A c = []"
  by (simp add: diff_def diff_loop_same)

subsection \<open>One side empty\<close>

text \<open>
  Claim C7, as stated, fails when both sequences are empty: pushSplice drops a splice
  that deletes nothing and inserts nothing, so diff([], [], contains) is the empty list
  and not a single splice. Amended: for every non-empty B, diff([], B, contains) is the
  single splice {start 0, deleteCount 0, toInsert B}, and for every non-empty A,
  diff(A, [], contains) is the single splice {start 0, deleteCount len(A), toInsert []},
  for any contains predicate.
\<close>

theorem diff_one_side_empty:
  "(B \<noteq> [] \<longrightarrow> diff [] B c = [\<lparr>start = 0, deleteCount = 0, toInsert = B\<rparr>])
   \<and> (A \<noteq> [] \<longrightarrow> diff A [] c = [\<lparr>start = 0, deleteCount = length A, toInsert = []\<rparr>])"
  by (simp add: diff_def diff_loop.simps[of _ "[]"] diff_loop.simps[of "[]"] pushSplice_def)

theorem diff_one_side_empty_witness:
  "[1, 2 :: nat] \<noteq> []
   \<and> diff [] [1, 2 :: nat] (contains_of []) = [\<lparr>start = 0, deleteCount = 0, toInsert = [1, 2]\<rparr>]
   \<and> diff [1, 2 :: nat] [] (contains_of [1, 2]) = [\<lparr>start = 0, deleteCount = 2, toInsert = []\<rparr>]"
  using diff_one_side_empty [of "[1, 2 :: nat]" "contains_of []" "[1, 2 :: nat]"]
    diff_one_side_empty [of "[1, 2 :: nat]" "contains_of [1, 2 :: nat]" "[1, 2 :: nat]"]
  by simp

theorem diff_both_empty_counterexample:
  "diff ([] :: nat list) [] (contains_of [])
     \<noteq> [\<lparr>start = 0, deleteCount = 0, toInsert = []\<rparr>]"
  by (simp add: diff_def diff_loop.simps pushSplice_def)

subsection \<open>Adjacent splices are merged\<close>

lemma no_adjacent_iff:
  "no_adjacent r \<longleftrightarrow>
     (\<forall>i. Suc i < length r \<longrightarrow> start (r ! i) + deleteCount (r ! i) \<noteq> start (r ! Suc i))"
  by (auto simp: no_adjacent_def list_all_iff less_diff_conv)

lemma no_adjacent_snoc:
  "no_adjacent (r @ [x]) \<longleftrightarrow>
     no_adjacent r \<and> (r \<noteq> [] \<longrightarrow> start (last r) + deleteCount (last r) \<noteq> start x)"
proof
  assume H: "no_adjacent (r @ [x])"
  show "no_adjacent r \<and> (r \<noteq> [] \<longrightarrow> start (last r) + deleteCount (last r) \<noteq> start x)"
  proof (intro conjI impI)
    show "no_adjacent r"
      unfolding no_adjacent_iff
    proof (intro allI impI)
      fix i assume "Suc i < length r"
      then show "start (r ! i) + deleteCount (r ! i) \<noteq> start (r ! Suc i)"
        using H[unfolded no_adjacent_iff, rule_format, of i] by (simp add: nth_append)
    qed
  next
    assume "r \<noteq> []"
    then have "Suc (length r - 1) < length (r @ [x])" "length r - 1 < length r" by auto
    then show "start (last r) + deleteCount (last r) \<noteq> start x"
      using H[unfolded no_adjacent_iff, rule_format, of "length r - 1"] \<open>r \<noteq> []\<close>
      by (simp add: nth_append last_conv_nth)
  qed
next
  assume H: "no_adjacent r \<and> (r \<noteq> [] \<longrightarrow> start (last r) + deleteCount (last r) \<noteq> start x)"
  show "no_adjacent (r @ [x])"
    unfolding no_adjacent_iff
  proof (intro allI impI)
    fix i assume i: "Suc i < length (r @ [x])"
    show "start ((r @ [x]) ! i) + deleteCount ((r @ [x]) ! i) \<noteq> start ((r @ [x]) ! Suc i)"
    proof (cases "Suc i < length r")
      case True
      then show ?thesis using H by (simp add: no_adjacent_iff nth_append)
    next
      case False
      with i have e: "Suc i = length r" by simp
      then have ne: "r \<noteq> []" by auto
      have "last r = r ! i" using e ne by (metis diff_Suc_1 last_conv_nth)
      then show ?thesis using H e ne by (simp add: nth_append)
    qed
  qed
qed

lemma no_adjacent_pushSplice: "no_adjacent r \<Longrightarrow> no_adjacent (pushSplice s d ins r)"
proof -
  assume H: "no_adjacent r"
  show ?thesis
  proof (cases "r = []")
    case True
    then show ?thesis by (simp add: pushSplice_def no_adjacent_iff)
  next
    case False
    then have r: "r = butlast r @ [last r]" by simp
    have nb: "no_adjacent (butlast r)"
      and nl: "butlast r \<noteq> [] \<longrightarrow> start (last (butlast r)) + deleteCount (last (butlast r)) \<noteq> start (last r)"
      using H no_adjacent_snoc[of "butlast r" "last r"] r by auto
    show ?thesis
      using H False nb nl by (auto simp: pushSplice_def no_adjacent_snoc)
  qed
qed

lemma no_adjacent_diff_loop:
  "no_adjacent r \<Longrightarrow> no_adjacent (diff_loop A B c i j r)"
proof (induction A B c i j r rule: diff_loop.induct)
  case (1 before after contains beforeIdx afterIdx result)
  show ?case
    apply (subst diff_loop.simps)
    using 1 by (auto simp: no_adjacent_pushSplice)
qed

text \<open>
  Claim C6: for all sequences A, B and every contains predicate, no two consecutive
  entries of diff(A, B, contains) satisfy
  result[i].start + result[i].deleteCount = result[i+1].start.
\<close>

theorem diff_no_adjacent:
  "Suc i < length (diff A B c) \<Longrightarrow>
   start (diff A B c ! i) + deleteCount (diff A B c ! i) \<noteq> start (diff A B c ! Suc i)"
  using no_adjacent_diff_loop[of "[]" A B c 0 0]
  by (simp add: diff_def no_adjacent_iff)

theorem diff_no_adjacent_witness:
  "Suc 0 < length (diff [1, 2 :: nat] [9, 1, 8, 2] (contains_of [1, 2]))
   \<and> start (diff [1, 2 :: nat] [9, 1, 8, 2] (contains_of [1, 2]) ! 0)
       + deleteCount (diff [1, 2 :: nat] [9, 1, 8, 2] (contains_of [1, 2]) ! 0)
     \<noteq> start (diff [1, 2 :: nat] [9, 1, 8, 2] (contains_of [1, 2]) ! Suc 0)"
proof -
  have d: "diff [1, 2 :: nat] [9, 1, 8, 2] (contains_of [1, 2])
             = [\<lparr>start = 0, deleteCount = 0, toInsert = [9]\<rparr>,
                \<lparr>start = 1, deleteCount = 0, toInsert = [8]\<rparr>]"
    by (simp add: diff_def diff_loop.simps pushSplice_def contains_of_def)
  have l: "Suc 0 < length (diff [1, 2 :: nat] [9, 1, 8, 2] (contains_of [1, 2]))"
    unfolding d by simp
  show ?thesis
    using l diff_no_adjacent [OF l] by simp
qed

subsection \<open>Applying the splices\<close>

lemma splice_list_id: "splice_list k 0 [] xs = xs"
  by (simp add: splice_list_def)

lemma splice_list_merge:
  assumes "s + d = k" "k \<le> length xs"
  shows "splice_list s (d + d') (ins @ ins') xs = splice_list s d ins (splice_list k d' ins' xs)"
proof -
  have t: "take s (take k xs @ ins' @ drop (k + d') xs) = take s xs"
    using assms by (simp add: min_def)
  have dr: "drop (s + d) (take k xs @ ins' @ drop (k + d') xs) = ins' @ drop (k + d') xs"
    using assms by simp
  have e: "s + (d + d') = k + d'" using assms by simp
  show ?thesis
    unfolding splice_list_def t dr e by simp
qed

lemma apply_reversed_snoc: "apply_reversed (r @ [sp]) xs = apply_reversed r (apply_splice sp xs)"
  by (simp add: apply_reversed_def)

lemma apply_reversed_pushSplice:
  assumes "k \<le> length xs"
  shows "apply_reversed (pushSplice k d ins r) xs = apply_reversed r (splice_list k d ins xs)"
proof (cases "d = 0 \<and> ins = []")
  case True
  then show ?thesis by (simp add: pushSplice_def splice_list_id)
next
  case False
  show ?thesis
  proof (cases "r \<noteq> [] \<and> start (last r) + deleteCount (last r) = k")
    case True
    then have r: "r = butlast r @ [last r]" by simp
    have "apply_reversed r (splice_list k d ins xs)
            = apply_reversed (butlast r) (apply_splice (last r) (splice_list k d ins xs))"
      by (subst r) (simp only: apply_reversed_snoc)
    also have "apply_splice (last r) (splice_list k d ins xs)
            = splice_list (start (last r)) (deleteCount (last r) + d) (toInsert (last r) @ ins) xs"
      using True assms by (simp add: apply_splice_def splice_list_merge)
    finally have R: "apply_reversed r (splice_list k d ins xs)
            = apply_reversed (butlast r)
                (splice_list (start (last r)) (deleteCount (last r) + d) (toInsert (last r) @ ins) xs)" .
    have ps: "pushSplice k d ins r = butlast r @
             [(last r)\<lparr>deleteCount := deleteCount (last r) + d,
                            toInsert := toInsert (last r) @ ins\<rparr>]"
      using True False by (auto simp: pushSplice_def)
    show ?thesis
      unfolding ps R by (simp add: apply_reversed_snoc apply_splice_def)
  next
    case F2: False
    then show ?thesis using False
      by (auto simp: pushSplice_def apply_reversed_snoc apply_splice_def)
  qed
qed

lemma diff_loop_reconstructs:
  assumes "\<forall>rest. apply_reversed r (take i A @ rest) = take j B @ rest"
    and "i \<le> length A" and "j \<le> length B"
  shows "apply_reversed (diff_loop A B c i j r) A = B"
  using assms
proof (induction A B c i j r rule: diff_loop.induct)
  case (1 A B c i j r)
  note inv = "1.prems"(1)[rule_format]
  show ?case
  proof (cases "length A \<le> i")
    case True
    then have "apply_reversed (pushSplice i 0 (drop j B) r) A = apply_reversed r (take i A @ drop j B)"
      using "1.prems"(2) by (simp add: apply_reversed_pushSplice splice_list_def)
    then show ?thesis using True inv[of "drop j B"] by (subst diff_loop.simps) simp
  next
    case iA: False
    show ?thesis
    proof (cases "length B \<le> j")
      case True
      then have "apply_reversed (pushSplice i (length A - i) [] r) A = apply_reversed r (take i A @ [])"
        using iA by (simp add: apply_reversed_pushSplice splice_list_def)
      then show ?thesis using True iA inv[of "[]"] "1.prems"(3)
        by (subst diff_loop.simps) simp
    next
      case jB: False
      have tA: "take (Suc i) A = take i A @ [A ! i]" using iA by (simp add: take_Suc_conv_app_nth)
      have tB: "take (Suc j) B = take j B @ [B ! j]" using jB by (simp add: take_Suc_conv_app_nth)
      show ?thesis
      proof (cases "A ! i = B ! j")
        case True
        have "\<forall>rest. apply_reversed r (take (i + 1) A @ rest) = take (j + 1) B @ rest"
          using inv[of "A ! i # rest" for rest] True by (simp add: tA tB)
        then show ?thesis
          using "1.IH"(1)[OF iA jB True] iA jB True by (subst diff_loop.simps) simp
      next
        case ne: False
        show ?thesis
        proof (cases "c (B ! j)")
          case True
          have "\<forall>rest. apply_reversed (pushSplice i 1 [] r) (take (i + 1) A @ rest) = take j B @ rest"
          proof
            fix rest
            have "apply_reversed (pushSplice i 1 [] r) (take (i + 1) A @ rest)
                    = apply_reversed r (splice_list i 1 [] (take (i + 1) A @ rest))"
              using iA by (intro apply_reversed_pushSplice) simp
            also have "splice_list i 1 [] (take (i + 1) A @ rest) = take i A @ rest"
              using iA by (simp add: splice_list_def tA)
            finally show "apply_reversed (pushSplice i 1 [] r) (take (i + 1) A @ rest) = take j B @ rest"
              using inv by simp
          qed
          then show ?thesis
            using "1.IH"(2)[OF iA jB ne True] iA jB ne True "1.prems"(3)
            by (subst diff_loop.simps) simp
        next
          case False
          have "\<forall>rest. apply_reversed (pushSplice i 0 [B ! j] r) (take i A @ rest) = take (j + 1) B @ rest"
          proof
            fix rest
            have "apply_reversed (pushSplice i 0 [B ! j] r) (take i A @ rest)
                    = apply_reversed r (splice_list i 0 [B ! j] (take i A @ rest))"
              using iA by (intro apply_reversed_pushSplice) simp
            also have "splice_list i 0 [B ! j] (take i A @ rest) = take i A @ (B ! j # rest)"
              using iA by (simp add: splice_list_def)
            finally show "apply_reversed (pushSplice i 0 [B ! j] r) (take i A @ rest) = take (j + 1) B @ rest"
              using inv[of "B ! j # rest"] by (simp add: tB)
          qed
          then show ?thesis
            using "1.IH"(3)[OF iA jB ne False] iA jB ne False "1.prems"(2)
            by (subst diff_loop.simps) simp
        qed
      qed
    qed
  qed
qed

text \<open>
  Claim C1, as stated, fails: every start index of a splice is a position in the original
  sequence A, so applying the splices first to last, each to the result of the one before,
  puts every splice after the first insertion or deletion at a shifted position.
  Amended: for all sequences A and B and any contains predicate (consistent with the
  membership of A or not), applying the splices of diff(A, B, contains) to A last to
  first, so that each start index still refers to its position in A, reproduces B
  exactly.
\<close>

theorem diff_apply_reversed: "apply_reversed (diff A B c) A = B"
  unfolding diff_def by (rule diff_loop_reconstructs) (simp_all add: apply_reversed_def)

theorem diff_apply_in_order_counterexample:
  "apply_in_order (diff [1, 2 :: nat] [9, 1, 8, 2] (contains_of [1, 2])) [1, 2] \<noteq> [9, 1, 8, 2]"
  by (simp add: diff_def diff_loop.simps pushSplice_def contains_of_def apply_in_order_def
        apply_splice_def splice_list_def)


section \<open>Properties of the mimetype ranking\<close>

lemma scanOrder_firstMatch:
  "scanOrder ps m k = (case firstMatch ps m of Some i \<Rightarrow> Inl (k + i) | None \<Rightarrow> Inr (k + length ps))"
  by (induction ps arbitrary: k) (auto simp: firstMatch_def)

text \<open>
  Claim C4, as stated for every state, fails while the rendering handler has no display
  order yet: getMimeTypeOrder is guarded by \<open>if (coreDisplayOrder)\<close> and then scans no
  list, the document order included, and returns 0. Amended: when the display order of
  the rendering handler is set, getMimeTypeOrder(m) is the index of the first pattern
  matching m when userOrder (empty if absent), then documentOrder, then defaultOrder are
  scanned, the indices of each list offset by the lengths of the lists scanned before it,
  and the total number of patterns if none matches; while the display order is not set,
  getMimeTypeOrder(m) is 0 for every m. With userOrder = [image/*], documentOrder = [],
  defaultOrder = [text/plain, text/html] the ranks of image/png, text/plain, text/html
  and application/json are 0, 1, 2 and 3.
\<close>

theorem getMimeTypeOrder_rank:
  assumes "outputDisplayOrder (renderingHandler doc) = Some cdo"
  shows "getMimeTypeOrder doc m =
           specRank (case userOrder cdo of None \<Rightarrow> [] | Some u \<Rightarrow> u)
             (parsedDisplayOrder doc) (defaultOrder cdo) m
     \<and> (outputDisplayOrder (renderingHandler doc0) = None \<longrightarrow> getMimeTypeOrder doc0 m = 0)
     \<and> getMimeTypeOrder (ex_document ex_handler_png []) ''image/png'' = 0
     \<and> getMimeTypeOrder (ex_document ex_handler_png []) ''text/plain'' = 1
     \<and> getMimeTypeOrder (ex_document ex_handler_png []) ''text/html'' = 2
     \<and> getMimeTypeOrder (ex_document ex_handler_png []) ''application/json'' = 3"
proof -
  have general: "getMimeTypeOrder doc m =
           specRank (case userOrder cdo of None \<Rightarrow> [] | Some u \<Rightarrow> u)
             (parsedDisplayOrder doc) (defaultOrder cdo) m"
    using assms
    by (auto simp: getMimeTypeOrder_def specRank_def scanOrder_firstMatch firstMatch_def
          split: option.splits sum.splits)
  have unset: "outputDisplayOrder (renderingHandler doc0) = None \<longrightarrow> getMimeTypeOrder doc0 m = 0"
    by (simp add: getMimeTypeOrder_def)
  have example: "getMimeTypeOrder (ex_document ex_handler_png []) ''image/png'' = 0
     \<and> getMimeTypeOrder (ex_document ex_handler_png []) ''text/plain'' = 1
     \<and> getMimeTypeOrder (ex_document ex_handler_png []) ''text/html'' = 2
     \<and> getMimeTypeOrder (ex_document ex_handler_png []) ''application/json'' = 3"
    by (simp add: getMimeTypeOrder_def ex_document_def ex_handler_png_def glob_parse_def)
  show ?thesis using general unset example by simp
qed

theorem getMimeTypeOrder_rank_witness:
  "outputDisplayOrder (renderingHandler (ex_document ex_handler_png [glob_parse ''text/*'']))
     = Some \<lparr>defaultOrder = [glob_parse ''text/plain'', glob_parse ''text/html''],
              userOrder = Some [glob_parse ''image/*'']\<rparr>
   \<and> getMimeTypeOrder (ex_document ex_handler_png [glob_parse ''text/*'']) ''text/html''
       = specRank [glob_parse ''image/*''] [glob_parse ''text/*'']
           [glob_parse ''text/plain'', glob_parse ''text/html''] ''text/html''
   \<and> getMimeTypeOrder (ex_document ex_handler_png [glob_parse ''text/*'']) ''text/html'' = 1
   \<and> outputDisplayOrder (renderingHandler
         (ex_document ex_handler_two [glob_parse ''text/*'', glob_parse ''image/*''])) = None
   \<and> getMimeTypeOrder (ex_document ex_handler_two [glob_parse ''text/*'', glob_parse ''image/*''])
         ''text/html'' = 0"
proof -
  have h: "outputDisplayOrder (renderingHandler (ex_document ex_handler_png [glob_parse ''text/*'']))
     = Some \<lparr>defaultOrder = [glob_parse ''text/plain'', glob_parse ''text/html''],
              userOrder = Some [glob_parse ''image/*'']\<rparr>"
    by (simp add: ex_document_def ex_handler_png_def)
  have n: "outputDisplayOrder (renderingHandler
         (ex_document ex_handler_two [glob_parse ''text/*'', glob_parse ''image/*''])) = None"
    by (simp add: ex_document_def ex_handler_two_def)
  have v: "getMimeTypeOrder (ex_document ex_handler_png [glob_parse ''text/*'']) ''text/html'' = 1"
    by (simp add: getMimeTypeOrder_def ex_document_def ex_handler_png_def glob_parse_def)
  have p: "parsedDisplayOrder (ex_document ex_handler_png [glob_parse ''text/*''])
             = [glob_parse ''text/*'']"
    by (simp add: ex_document_def)
  show ?thesis
    using h n v p
      getMimeTypeOrder_rank [OF h, of "''text/html''"
        "ex_document ex_handler_two [glob_parse ''text/*'', glob_parse ''image/*'']"]
    by simp
qed

text \<open>
  The state the claim misses: no display order set, document order [text/*, image/*].
  The rank the claim gives image/png is 1, the index of image/* in the document order;
  the code returns 0.
\<close>

theorem getMimeTypeOrder_unset_counterexample:
  "getMimeTypeOrder (ex_document ex_handler_two [glob_parse ''text/*'', glob_parse ''image/*''])
       ''image/png'' = 0
   \<and> specRank [] [glob_parse ''text/*'', glob_parse ''image/*''] [] ''image/png'' = 1
   \<and> getMimeTypeOrder (ex_document ex_handler_two [glob_parse ''text/*'', glob_parse ''image/*''])
         ''image/png''
       \<noteq> specRank [] [glob_parse ''text/*'', glob_parse ''image/*''] [] ''image/png''"
  by (simp add: getMimeTypeOrder_def specRank_def firstMatch_def ex_document_def
        ex_handler_two_def glob_parse_def)

section \<open>Properties of the mimetype resolution\<close>

lemma fold_transformStep:
  "fold (transformStep core doc cell out) ms st =
     (fst st @ concat (map (pushedCandidates core doc cell out) ms),
      snd st @ concat (map (renderCalls doc) ms))"
  by (induction ms arbitrary: st) (simp_all add: transformStep_def)

lemma orderedMimeTypes_transformMimeTypes:
  "orderedMimeTypes (fst (transformMimeTypes core doc cell out)) =
     concat (map (pushedCandidates core doc cell out)
       (sort_key (getMimeTypeOrder doc) (map fst (data out))))"
  by (simp add: transformMimeTypes_def Let_def fold_transformStep)

lemma snd_transformMimeTypes:
  "snd (transformMimeTypes core doc cell out) =
     concat (map (renderCalls doc) (sort_key (getMimeTypeOrder doc) (map fst (data out))))"
  by (simp add: transformMimeTypes_def Let_def fold_transformStep)

lemma mimeType_pushedCandidates:
  "c \<in> set (pushedCandidates core doc cell out m) \<Longrightarrow> mimeType c = m"
  by (auto simp: pushedCandidates_def split: list.splits if_splits)

lemma sorted_concat_candidates:
  "sorted (map f ms) \<Longrightarrow>
   sorted (map (\<lambda>c. f (mimeType c)) (concat (map (pushedCandidates core doc cell out) ms)))"
proof (induction ms)
  case Nil
  then show ?case by simp
next
  case (Cons m ms)
  have here: "\<forall>c\<in>set (pushedCandidates core doc cell out m). f (mimeType c) = f m"
    by (simp add: mimeType_pushedCandidates)
  have later: "\<forall>c\<in>set (concat (map (pushedCandidates core doc cell out) ms)). f m \<le> f (mimeType c)"
    using Cons.prems by (auto dest!: mimeType_pushedCandidates)
  have s1: "sorted (map (\<lambda>c. f (mimeType c)) (pushedCandidates core doc cell out m))"
    using here by (simp add: sorted_wrt_iff_nth_less sorted_wrt_map)
  show ?case
    using Cons s1 here later by (auto simp: sorted_append)
qed

lemma filter_concat_candidates:
  "distinct ms \<Longrightarrow> m \<in> set ms \<Longrightarrow>
   filter (\<lambda>c. mimeType c = m) (concat (map (pushedCandidates core doc cell out) ms))
     = pushedCandidates core doc cell out m"
proof (induction ms)
  case Nil
  then show ?case by simp
next
  case (Cons k ms)
  have same: "filter (\<lambda>c. mimeType c = m) (pushedCandidates core doc cell out m)
                = pushedCandidates core doc cell out m"
    by (simp add: filter_id_conv mimeType_pushedCandidates)
  have other: "k' \<noteq> m \<Longrightarrow> filter (\<lambda>c. mimeType c = m) (pushedCandidates core doc cell out k') = []" for k'
    by (auto simp: filter_empty_conv dest: mimeType_pushedCandidates)
  have none: "m \<notin> set ks \<Longrightarrow>
      filter (\<lambda>c. mimeType c = m) (concat (map (pushedCandidates core doc cell out) ks)) = []" for ks
    by (induction ks) (auto simp: other)
  show ?case
  proof (cases "k = m")
    case True
    then show ?thesis using Cons.prems same none[of ms] by simp
  next
    case False
    then show ?thesis using Cons other[of k] by simp
  qed
qed

lemma resolved_candidates_calls:
  "map (\<lambda>c. (rendererId c, mimeType c)) (filter isResolved (pushedCandidates core doc cell out m))
     = map (\<lambda>call. (Some (int (fst call)), snd call)) (renderCalls doc m)"
  by (simp add: pushedCandidates_def renderCalls_def filter_empty_conv o_def split: list.splits)

lemma resolved_concat:
  "map (\<lambda>c. (rendererId c, mimeType c))
       (filter isResolved (concat (map (pushedCandidates core doc cell out) ms)))
     = map (\<lambda>call. (Some (int (fst call)), snd call)) (concat (map (renderCalls doc) ms))"
  by (induction ms) (simp_all add: resolved_candidates_calls)

text \<open>
  Claim C2, as stated, fails: transformMimeTypes calls the render function of the first
  matching renderer for every mimetype of the output that has one, not only for the
  picked candidate. Amended: for every display/execute_result output passed to
  transformMimeTypes, the render calls of that call are, in rank order of the output's
  mimetypes, one call of the first matching renderer for each mimetype that has a
  matching renderer; these calls are exactly the candidates marked resolved, so no
  render function of an unresolved candidate is invoked.
\<close>

theorem transformMimeTypes_render_calls:
  "snd (transformMimeTypes core doc cell out) =
     concat (map (\<lambda>m. case findBestMatchedRenderer (renderingHandler doc) m of
                          [] \<Rightarrow> [] | r # others \<Rightarrow> [(rendererHandle r, m)])
                 (sort_key (getMimeTypeOrder doc) (map fst (data out))))
   \<and> map (\<lambda>c. (rendererId c, mimeType c))
         (filter isResolved (orderedMimeTypes (fst (transformMimeTypes core doc cell out))))
       = map (\<lambda>call. (Some (int (fst call)), snd call)) (snd (transformMimeTypes core doc cell out))"
proof -
  have "renderCalls doc = (\<lambda>m. case findBestMatchedRenderer (renderingHandler doc) m of
                          [] \<Rightarrow> [] | r # others \<Rightarrow> [(rendererHandle r, m)])"
    by (rule ext) (simp add: renderCalls_def)
  then show ?thesis
    by (simp add: snd_transformMimeTypes orderedMimeTypes_transformMimeTypes resolved_concat)
qed

theorem transformMimeTypes_only_picked_counterexample:
  "\<not> only_picked_rendered
       (transformMimeTypes ex_supportedByCore (ex_document ex_handler_two []) (ex_cell 1) ex_output)"
  by (simp add: only_picked_rendered_def transformMimeTypes_def transformStep_def
        pushedCandidates_def renderCalls_def findBestMatchedRenderer_def matches_def
        getMimeTypeOrder_def ex_document_def ex_handler_two_def ex_renderer_def ex_output_def
        ex_supportedByCore_def ex_cell_def ex_render_def)

text \<open>
  Claim C5: for a display/execute_result output (its data keys distinct, as the keys of an
  object are), the candidates of the result of transformMimeTypes are in ascending order
  of the rank of their mimetype, pickedMimeTypeIndex is 0, and for each mimetype of the
  output with a matching renderer the candidates of that mimetype are the resolved
  candidate of the first matching renderer followed by unresolved candidates only. In
  particular, with data {text/plain: x, image/png: y}, one registered renderer, matching
  image/png, and userOrder = [image/*], the candidate at index 0 is the resolved
  image/png candidate.
\<close>

theorem transformMimeTypes_ordered:
  assumes "distinct (map fst (data out))"
  shows "sorted (map (\<lambda>c. getMimeTypeOrder doc (mimeType c))
                  (orderedMimeTypes (fst (transformMimeTypes core doc cell out))))
    \<and> pickedMimeTypeIndex (fst (transformMimeTypes core doc cell out)) = 0
    \<and> (\<forall>m h0 others. m \<in> set (map fst (data out))
           \<and> findBestMatchedRenderer (renderingHandler doc) m = h0 # others \<longrightarrow>
         (\<exists>rest. filter (\<lambda>c. mimeType c = m)
                    (orderedMimeTypes (fst (transformMimeTypes core doc cell out)))
                  = \<lparr>mimeType = m, isResolved = True, rendererId = Some (int (rendererHandle h0)),
                      renderedOutput = Some (render h0 cell out m)\<rparr> # rest
               \<and> list_all (\<lambda>c. \<not> isResolved c) rest))
    \<and> (outputDisplayOrder (renderingHandler doc) = Some cdo
         \<and> userOrder cdo = Some [glob_parse ''image/*'']
         \<and> notebookOutputRenderers (renderingHandler doc) = [r]
         \<and> matches r ''image/png''
         \<and> data out = [(''text/plain'', x), (''image/png'', y)] \<longrightarrow>
       orderedMimeTypes (fst (transformMimeTypes core doc cell out)) ! 0
         = \<lparr>mimeType = ''image/png'', isResolved = True, rendererId = Some (int (rendererHandle r)),
             renderedOutput = Some (render r cell out ''image/png'')\<rparr>)"
proof (intro conjI allI impI)
  show "sorted (map (\<lambda>c. getMimeTypeOrder doc (mimeType c))
                  (orderedMimeTypes (fst (transformMimeTypes core doc cell out))))"
    unfolding orderedMimeTypes_transformMimeTypes
    by (rule sorted_concat_candidates) simp
next
  show "pickedMimeTypeIndex (fst (transformMimeTypes core doc cell out)) = 0"
    by (simp add: transformMimeTypes_def Let_def)
next
  fix m h0 others
  assume H: "m \<in> set (map fst (data out))
           \<and> findBestMatchedRenderer (renderingHandler doc) m = h0 # others"
  have d: "distinct (sort_key (getMimeTypeOrder doc) (map fst (data out)))"
    using assms by simp
  have f: "filter (\<lambda>c. mimeType c = m)
                    (orderedMimeTypes (fst (transformMimeTypes core doc cell out)))
            = pushedCandidates core doc cell out m"
    unfolding orderedMimeTypes_transformMimeTypes
    using H by (intro filter_concat_candidates[OF d]) simp
  show "\<exists>rest. filter (\<lambda>c. mimeType c = m)
                    (orderedMimeTypes (fst (transformMimeTypes core doc cell out)))
                  = \<lparr>mimeType = m, isResolved = True, rendererId = Some (int (rendererHandle h0)),
                      renderedOutput = Some (render h0 cell out m)\<rparr> # rest
               \<and> list_all (\<lambda>c. \<not> isResolved c) rest"
    unfolding f using H by (auto simp: pushedCandidates_def list_all_iff)
next
  assume E: "outputDisplayOrder (renderingHandler doc) = Some cdo
         \<and> userOrder cdo = Some [glob_parse ''image/*'']
         \<and> notebookOutputRenderers (renderingHandler doc) = [r]
         \<and> matches r ''image/png''
         \<and> data out = [(''text/plain'', x), (''image/png'', y)]"
  have r0: "getMimeTypeOrder doc ''image/png'' = 0"
    using E by (simp add: getMimeTypeOrder_def glob_parse_def)
  have r1: "0 < getMimeTypeOrder doc ''text/plain''"
    using E by (auto simp: getMimeTypeOrder_def glob_parse_def scanOrder_firstMatch firstMatch_def
                 split: option.splits)
  have s: "sort_key (getMimeTypeOrder doc) (map fst (data out)) = [''image/png'', ''text/plain'']"
    using E r0 r1 by simp
  show "orderedMimeTypes (fst (transformMimeTypes core doc cell out)) ! 0
         = \<lparr>mimeType = ''image/png'', isResolved = True, rendererId = Some (int (rendererHandle r)),
             renderedOutput = Some (render r cell out ''image/png'')\<rparr>"
    unfolding orderedMimeTypes_transformMimeTypes s
    using E by (simp add: pushedCandidates_def findBestMatchedRenderer_def)
qed

theorem transformMimeTypes_ordered_witness:
  "distinct (map fst (data ex_output))
   \<and> sorted (map (getMimeTypeOrder (ex_document ex_handler_png []))
        (map mimeType (orderedMimeTypes (fst (transformMimeTypes ex_supportedByCore
           (ex_document ex_handler_png []) (ex_cell 1) ex_output)))))
   \<and> pickedMimeTypeIndex (fst (transformMimeTypes ex_supportedByCore
           (ex_document ex_handler_png []) (ex_cell 1) ex_output)) = 0
   \<and> matches (ex_renderer 7 ''image/png'') ''image/png''
   \<and> orderedMimeTypes (fst (transformMimeTypes ex_supportedByCore
           (ex_document ex_handler_png []) (ex_cell 1) ex_output)) ! 0
       = \<lparr>mimeType = ''image/png'', isResolved = True, rendererId = Some 7,
           renderedOutput = Some ''<div/>''\<rparr>"
proof -
  have d: "distinct (map fst (data ex_output))"
    by (simp add: ex_output_def)
  have e: "outputDisplayOrder (renderingHandler (ex_document ex_handler_png []))
             = Some \<lparr>defaultOrder = [glob_parse ''text/plain'', glob_parse ''text/html''],
                      userOrder = Some [glob_parse ''image/*'']\<rparr>
         \<and> userOrder \<lparr>defaultOrder = [glob_parse ''text/plain'', glob_parse ''text/html''],
                      userOrder = Some [glob_parse ''image/*'']\<rparr> = Some [glob_parse ''image/*'']
         \<and> notebookOutputRenderers (renderingHandler (ex_document ex_handler_png []))
             = [ex_renderer 7 ''image/png'']
         \<and> matches (ex_renderer 7 ''image/png'') ''image/png''
         \<and> data ex_output = [(''text/plain'', ''x''), (''image/png'', ''y'')]"
    by (simp add: ex_document_def ex_handler_png_def ex_output_def matches_def ex_renderer_def)
  note t = transformMimeTypes_ordered [OF d, of "ex_document ex_handler_png []" ex_supportedByCore
       "ex_cell 1"
       "\<lparr>defaultOrder = [glob_parse ''text/plain'', glob_parse ''text/html''],
         userOrder = Some [glob_parse ''image/*'']\<rparr>"
       "ex_renderer 7 ''image/png''" "''x''" "''y''"]
  have r: "render (ex_renderer 7 ''image/png'') (ex_cell 1) ex_output ''image/png'' = ''<div/>''"
     "rendererHandle (ex_renderer 7 ''image/png'') = 7"
    by (simp_all add: ex_renderer_def ex_render_def)
  show ?thesis
    using d e t r by (simp add: o_def)
qed

section \<open>Properties of the document operations\<close>

lemma diff_remove_middle:
  assumes "c2 \<noteq> c3" "c c3"
  shows "diff [c1, c2, c3] [c1, c3] c = [\<lparr>start = 1, deleteCount = 1, toInsert = []\<rparr>]"
  using assms by (simp add: diff_def diff_loop.simps pushSplice_def)

text \<open>
  Claim C3: for a document whose subscription map has exactly the handles of its cells,
  the cells setter run with old cells [c1, c2, c3] (handles 1, 2, 3) and new cells
  [c1, c3] completes without an exception, leaves the subscription map with exactly the
  handles 1 and 3, disposes the listeners held under handle 2 in the same mutation, and
  forwards exactly one spliceCells call to the remote peer, with the single splice
  {start 1, deleteCount 1, no inserted cells} and no renderers.
\<close>

theorem set_cells_remove_middle:
  assumes "cells doc = [c1, c2, c3]"
    and "handle c1 = 1" and "handle c2 = 2" and "handle c3 = 3"
    and "dom (cellDisposableMapping doc) = {1, 2, 3}"
  shows "fst (set_cells supportedByCore [c1, c3] doc) = Inr ()
     \<and> dom (cellDisposableMapping (snd (set_cells supportedByCore [c1, c3] doc))) = {1, 3}
     \<and> cells (snd (set_cells supportedByCore [c1, c3] doc)) = [c1, c3]
     \<and> disposed (snd (set_cells supportedByCore [c1, c3] doc))
         = disposed doc @ the (cellDisposableMapping doc 2)
     \<and> proxyCalls (snd (set_cells supportedByCore [c1, c3] doc))
         = proxyCalls doc @ [SpliceNotebookCells (viewType doc) (uri doc) [(1, 1, [])] []]"
proof -
  have ne: "c2 \<noteq> c3" using assms(3,4) by auto
  have k3: "cellDisposableMapping doc (handle c3) \<noteq> None"
    using assms(4,5) by auto
  obtain store where st: "cellDisposableMapping doc 2 = Some store"
    using assms(5) by auto
  have d: "diff (cells doc) [c1, c3] (\<lambda>a. cellDisposableMapping doc (handle a) \<noteq> None)
             = [\<lparr>start = 1, deleteCount = 1, toInsert = []\<rparr>]"
    unfolding assms(1) using ne k3 by (rule diff_remove_middle)
  have u: "unsubscribeAt (Suc 0) doc =
      (Inr (), doc\<lparr>disposed := disposed doc @ store,
                   cellDisposableMapping := (cellDisposableMapping doc)(2 := None)\<rparr>)"
    using assms(1,3) st by (simp add: unsubscribeAt_def)
  have a: "forEachRun applyDiffToSubscriptions [\<lparr>start = 1, deleteCount = 1, toInsert = []\<rparr>] doc =
      (Inr (), doc\<lparr>disposed := disposed doc @ store,
                   cellDisposableMapping := (cellDisposableMapping doc)(2 := None)\<rparr>)"
    by (simp add: applyDiffToSubscriptions_def u)
  have r: "set_cells supportedByCore [c1, c3] doc =
      (Inr (), doc\<lparr>disposed := disposed doc @ store,
                   cellDisposableMapping := (cellDisposableMapping doc)(2 := None),
                   cells := [c1, c3],
                   proxyCalls := proxyCalls doc @
                     [SpliceNotebookCells (viewType doc) (uri doc) [(1, 1, [])] []]\<rparr>)"
    unfolding set_cells_def d Let_def a
    by (simp add: eventuallyUpdateCells_def spliceToDto_def)
  have dm: "dom ((cellDisposableMapping doc)(2 := None)) = {1, 3}"
    using assms(5) by auto
  show ?thesis
    unfolding r using st dm by simp
qed

theorem set_cells_remove_middle_witness:
  "cells (ex_document ex_handler_two []) = [ex_cell 1, ex_cell 2, ex_cell 3]
   \<and> handle (ex_cell 1) = 1 \<and> handle (ex_cell 2) = 2 \<and> handle (ex_cell 3) = 3
   \<and> dom (cellDisposableMapping (ex_document ex_handler_two [])) = {1, 2, 3}
   \<and> fst (set_cells ex_supportedByCore [ex_cell 1, ex_cell 3] (ex_document ex_handler_two []))
       = Inr ()
   \<and> dom (cellDisposableMapping
        (snd (set_cells ex_supportedByCore [ex_cell 1, ex_cell 3] (ex_document ex_handler_two []))))
       = {1, 3}
   \<and> disposed (snd (set_cells ex_supportedByCore [ex_cell 1, ex_cell 3] (ex_document ex_handler_two [])))
       = [2]
   \<and> proxyCalls (snd (set_cells ex_supportedByCore [ex_cell 1, ex_cell 3] (ex_document ex_handler_two [])))
       = [SpliceNotebookCells ''notebook'' ''file:///a.ipynb'' [(1, 1, [])] []]"
proof -
  have h1: "cells (ex_document ex_handler_two []) = [ex_cell 1, ex_cell 2, ex_cell 3]"
    by (simp add: ex_document_def)
  have h2: "handle (ex_cell 1) = 1" and h3: "handle (ex_cell 2) = 2" and h4: "handle (ex_cell 3) = 3"
    by (simp_all add: ex_cell_def)
  have h5: "dom (cellDisposableMapping (ex_document ex_handler_two [])) = {1, 2, 3}"
    by (auto simp: ex_document_def)
  have v: "disposed (ex_document ex_handler_two []) = []"
     "proxyCalls (ex_document ex_handler_two []) = []"
     "viewType (ex_document ex_handler_two []) = ''notebook''"
     "uri (ex_document ex_handler_two []) = ''file:///a.ipynb''"
     "the (cellDisposableMapping (ex_document ex_handler_two []) 2) = [2]"
    by (simp_all add: ex_document_def)
  show ?thesis
    using h1 h2 h3 h4 h5 set_cells_remove_middle [OF h1 h2 h3 h4 h5, of ex_supportedByCore]
    by (simp add: v)
qed

lemma deleteCell_beyond_end:
  "int (length (cells doc)) \<le> index \<Longrightarrow> deleteCell index doc = (Inr False, doc)"
  by (simp add: deleteCell_def)

text \<open>
  Claim C9 says that deleteCell returns false, changes nothing and throws nothing for
  every index outside the range of the cell list, negative indices included. For an index
  at or beyond the number of cells the code does so (lemma \<open>deleteCell_beyond_end\<close>). For
  the negative index -1 it throws: the guard only tests the upper bound, the cell read at
  the index is undefined and reading its handle raises a type error. The document is
  unchanged at the throw.
\<close>

theorem deleteCell_negative_throws: "deleteCell (- 1) doc = (Inl TypeError, doc)"
  by (simp add: deleteCell_def)

text \<open>
  Claim C10: every read of the languages property returns the empty list and resets the
  stored list to empty, whatever was assigned through the setter before; the setter
  forwards the assigned list to the remote peer.
\<close>

theorem languages_getter_resets:
  "fst (get_languages doc) = []
   \<and> languages (snd (get_languages doc)) = []
   \<and> fst (get_languages (set_languages newLanguages doc)) = []
   \<and> languages (snd (get_languages (set_languages newLanguages doc))) = []
   \<and> proxyCalls (set_languages newLanguages doc)
       = proxyCalls doc @ [UpdateNotebookLanguages (viewType doc) (uri doc) newLanguages]"
  by (simp add: get_languages_def set_languages_def Let_def)

end
